theory Spec2Isabelle
  imports Main "HOL-Library.Word"
begin

unbundle bit_operations_syntax

section \<open>Python values\<close>

text \<open>
  The script \<^verbatim>\<open>verify-eip712.py\<close> works on Python \<^verbatim>\<open>bytes\<close> (sequences of integers
  in \<^verbatim>\<open>range(256)\<close>), on \<^verbatim>\<open>str\<close> and on unbounded \<^verbatim>\<open>int\<close>. Bytes are 8-bit words,
  strings are lists of characters with code points below 256 (every string of the script
  is ASCII), integers are \<^typ>\<open>int\<close>. An exception is a value of type \<open>error\<close>; a
  computation that may raise returns \<open>error + 'a\<close> with \<open>Inl\<close> for the exception.
\<close>

type_synonym byte = "8 word"

datatype error = OverflowError | ValueError

fun and_then :: "error + 'a \<Rightarrow> ('a \<Rightarrow> error + 'b) \<Rightarrow> error + 'b" where
  "and_then (Inl e) f = Inl e"
| "and_then (Inr x) f = f x"

text \<open>
  \<^verbatim>\<open>str.encode('utf-8')\<close>: a code point below 128 is one byte, a code point from 128 to
  255 is the two bytes \<^verbatim>\<open>110000xx 10xxxxxx\<close>.
\<close>

definition utf8_char :: "char \<Rightarrow> byte list" where
  "utf8_char c =
     (if of_char c < (128 :: nat) then [of_char c]
      else [0xC0 OR of_nat (of_char c div 64), 0x80 OR of_nat (of_char c mod 64)])"

definition encode_utf8 :: "string \<Rightarrow> byte list" where
  "encode_utf8 s = concat (map utf8_char s)"

text \<open>\<^verbatim>\<open>bytes.hex()\<close>: two lowercase hexadecimal digits per byte.\<close>

definition hex_digit :: "nat \<Rightarrow> char" where
  "hex_digit n = ''0123456789abcdef'' ! n"

definition hex_byte :: "byte \<Rightarrow> string" where
  "hex_byte b = [hex_digit (unat b div 16), hex_digit (unat b mod 16)]"

definition hex :: "byte list \<Rightarrow> string" where
  "hex bs = concat (map hex_byte bs)"

text \<open>
  \<^verbatim>\<open>int.to_bytes(length, 'big')\<close> (unsigned): \<^verbatim>\<open>OverflowError\<close> for a negative value
  and for a value that does not fit into \<open>length\<close> bytes; otherwise the bytes are produced
  from the low-order end, each one the value modulo 256.
\<close>

fun be_bytes :: "nat \<Rightarrow> int \<Rightarrow> byte list" where
  "be_bytes 0 v = []"
| "be_bytes (Suc n) v = be_bytes n (v div 256) @ [word_of_int v]"

definition int_to_bytes :: "int \<Rightarrow> nat \<Rightarrow> error + byte list" where
  "int_to_bytes v n =
     (if v < 0 then Inl OverflowError
      else if 256 ^ n \<le> v then Inl OverflowError
      else Inr (be_bytes n v))"

text \<open>
  \<^verbatim>\<open>bytes.fromhex(s)\<close>: ASCII whitespace before a pair of digits and at the end is
  skipped; then two hexadecimal digits (either case) make one byte; anything else is a
  \<^verbatim>\<open>ValueError\<close>.
\<close>

definition py_isspace :: "char \<Rightarrow> bool" where
  "py_isspace c = (c \<in> set [CHR 0x09, CHR 0x0A, CHR 0x0B, CHR 0x0C, CHR 0x0D, CHR 0x20])"

definition hex_value :: "char \<Rightarrow> nat option" where
  "hex_value c =
     (let n = of_char c :: nat in
      if 48 \<le> n \<and> n \<le> 57 then Some (n - 48)
      else if 97 \<le> n \<and> n \<le> 102 then Some (n - 87)
      else if 65 \<le> n \<and> n \<le> 70 then Some (n - 55)
      else None)"

fun fromhex :: "string \<Rightarrow> error + byte list" where
  "fromhex [] = Inr []"
| "fromhex (c # cs) =
     (if py_isspace c then fromhex cs
      else case hex_value c of
        None \<Rightarrow> Inl ValueError
      | Some hi \<Rightarrow>
          (case cs of
             [] \<Rightarrow> Inl ValueError
           | d # ds \<Rightarrow>
               (case hex_value d of
                  None \<Rightarrow> Inl ValueError
                | Some lo \<Rightarrow> and_then (fromhex ds) (\<lambda>bs. Inr (of_nat (16 * hi + lo) # bs)))))"

section \<open>Keccak-256 as computed by \<^verbatim>\<open>Crypto.Hash.keccak\<close>\<close>

text \<open>
  The script hashes with \<^verbatim>\<open>keccak.new(digest_bits=256)\<close> of the pycryptodome library:
  the Keccak sponge with the permutation Keccak-f[1600] (24 rounds), capacity 512, hence a
  rate of 136 bytes, the original padding byte \<^verbatim>\<open>0x01\<close> (not SHA-3's \<^verbatim>\<open>0x06\<close>) and
  the final bit \<^verbatim>\<open>0x80\<close>. The library is not part of the repository; it is modelled here
  at the level of bits. A lane is a list of 64 bits, least significant first; a plane is
  the five lanes \<open>x = 0..4\<close> of one row \<open>y\<close>; the state is the five planes \<open>y = 0..4\<close>.
\<close>

type_synonym lane = "bool list"
type_synonym plane = "lane list"
type_synonym kstate = "plane list"

fun xor_lane :: "lane \<Rightarrow> lane \<Rightarrow> lane" where
  "xor_lane (a # as) (b # bs) = (a \<noteq> b) # xor_lane as bs"
| "xor_lane _ _ = []"

fun xor_plane :: "plane \<Rightarrow> plane \<Rightarrow> plane" where
  "xor_plane (a # as) (b # bs) = xor_lane a b # xor_plane as bs"
| "xor_plane _ _ = []"

text \<open>Rotation of a lane towards the most significant bit.\<close>

definition rol :: "nat \<Rightarrow> lane \<Rightarrow> lane" where
  "rol n a = drop (64 - n) a @ take (64 - n) a"

text \<open>Step \<open>\<theta>\<close>: every lane is xored with the parities of two neighbouring columns.\<close>

fun column_parity :: "kstate \<Rightarrow> plane" where
  "column_parity [] = []"
| "column_parity [p] = p"
| "column_parity (p # ps) = xor_plane p (column_parity ps)"

fun theta_d :: "plane \<Rightarrow> plane" where
  "theta_d [c0, c1, c2, c3, c4] =
     [xor_lane c4 (rol 1 c1), xor_lane c0 (rol 1 c2), xor_lane c1 (rol 1 c3),
      xor_lane c2 (rol 1 c4), xor_lane c3 (rol 1 c0)]"
| "theta_d _ = []"

definition theta :: "kstate \<Rightarrow> kstate" where
  "theta a = map (xor_plane (theta_d (column_parity a))) a"

text \<open>Step \<open>\<rho>\<close>: lane \<open>(x, y)\<close> is rotated by the offset in row \<open>y\<close>, column \<open>x\<close>.\<close>

definition rho_offsets :: "nat list list" where
  "rho_offsets =
    [[ 0,  1, 62, 28, 27],
     [36, 44,  6, 55, 20],
     [ 3, 10, 43, 25, 39],
     [41, 45, 15, 21,  8],
     [18,  2, 61, 56, 14]]"

fun rho_plane :: "nat list \<Rightarrow> plane \<Rightarrow> plane" where
  "rho_plane (n # ns) (a # as) = rol n a # rho_plane ns as"
| "rho_plane _ _ = []"

fun rho_planes :: "nat list list \<Rightarrow> kstate \<Rightarrow> kstate" where
  "rho_planes (ns # nss) (p # ps) = rho_plane ns p # rho_planes nss ps"
| "rho_planes _ _ = []"

definition rho :: "kstate \<Rightarrow> kstate" where
  "rho a = rho_planes rho_offsets a"

text \<open>
  Step \<open>\<pi>\<close>: lane \<open>(x, y)\<close> moves to \<open>(y, 2x + 3y mod 5)\<close>. The variable \<open>axy\<close> is the
  lane at column \<open>x\<close> of row \<open>y\<close>.
\<close>

fun pi :: "kstate \<Rightarrow> kstate" where
  "pi [[a00, a10, a20, a30, a40],
       [a01, a11, a21, a31, a41],
       [a02, a12, a22, a32, a42],
       [a03, a13, a23, a33, a43],
       [a04, a14, a24, a34, a44]] =
      [[a00, a11, a22, a33, a44],
       [a30, a41, a02, a13, a24],
       [a10, a21, a32, a43, a04],
       [a40, a01, a12, a23, a34],
       [a20, a31, a42, a03, a14]]"
| "pi _ = []"

text \<open>Step \<open>\<chi>\<close>: \<open>a[x] xor (not a[x+1] and a[x+2])\<close> along each row.\<close>

fun chi_lane :: "lane \<Rightarrow> lane \<Rightarrow> lane \<Rightarrow> lane" where
  "chi_lane (a # as) (b # bs) (c # cs) = (a \<noteq> (\<not> b \<and> c)) # chi_lane as bs cs"
| "chi_lane _ _ _ = []"

fun chi_plane :: "plane \<Rightarrow> plane" where
  "chi_plane [a0, a1, a2, a3, a4] =
     [chi_lane a0 a1 a2, chi_lane a1 a2 a3, chi_lane a2 a3 a4,
      chi_lane a3 a4 a0, chi_lane a4 a0 a1]"
| "chi_plane _ = []"

definition chi :: "kstate \<Rightarrow> kstate" where
  "chi a = map chi_plane a"

text \<open>Step \<open>\<iota>\<close>: the round constant is xored into lane \<open>(0, 0)\<close>.\<close>

fun bits_of_int :: "nat \<Rightarrow> int \<Rightarrow> bool list" where
  "bits_of_int 0 k = []"
| "bits_of_int (Suc n) k = odd k # bits_of_int n (k div 2)"

fun iota :: "lane \<Rightarrow> kstate \<Rightarrow> kstate" where
  "iota rc ((l # ls) # ps) = (xor_lane l rc # ls) # ps"
| "iota rc a = a"

definition round_constants :: "int list" where
  "round_constants =
    [0x0000000000000001, 0x0000000000008082, 0x800000000000808A, 0x8000000080008000,
     0x000000000000808B, 0x0000000080000001, 0x8000000080008081, 0x8000000000008009,
     0x000000000000008A, 0x0000000000000088, 0x0000000080008009, 0x000000008000000A,
     0x000000008000808B, 0x800000000000008B, 0x8000000000008089, 0x8000000000008003,
     0x8000000000008002, 0x8000000000000080, 0x000000000000800A, 0x800000008000000A,
     0x8000000080008081, 0x8000000000008080, 0x0000000080000001, 0x8000000080008008]"

definition keccak_round :: "lane \<Rightarrow> kstate \<Rightarrow> kstate" where
  "keccak_round rc a = iota rc (chi (pi (rho (theta a))))"

definition keccak_f :: "kstate \<Rightarrow> kstate" where
  "keccak_f a = fold keccak_round (map (bits_of_int 64) round_constants) a"

text \<open>
  The sponge. The 1600 bits of the state are its lanes in the order \<open>x + 5y\<close>; a byte
  contributes its bits least significant first.
\<close>

definition bits_of_byte :: "byte \<Rightarrow> bool list" where
  "bits_of_byte w = bits_of_int 8 (uint w)"

fun byte_of_bits :: "bool list \<Rightarrow> byte" where
  "byte_of_bits [] = 0"
| "byte_of_bits (b # bs) = of_bool b + 2 * byte_of_bits bs"

fun chunks :: "nat \<Rightarrow> 'a list \<Rightarrow> 'a list list" where
  "chunks n [] = []"
| "chunks 0 (x # xs) = []"
| "chunks (Suc n) (x # xs) = (x # take n xs) # chunks (Suc n) (drop n xs)"

fun xor_into :: "bool list \<Rightarrow> bool list \<Rightarrow> bool list" where
  "xor_into (a # as) (b # bs) = (a \<noteq> b) # xor_into as bs"
| "xor_into as [] = as"
| "xor_into [] bs = []"

definition rate :: nat where
  "rate = 136"

definition state_bits :: "kstate \<Rightarrow> bool list" where
  "state_bits a = concat (concat a)"

definition state_of_bits :: "bool list \<Rightarrow> kstate" where
  "state_of_bits bs = chunks 5 (chunks 64 bs)"

definition absorb_block :: "kstate \<Rightarrow> byte list \<Rightarrow> kstate" where
  "absorb_block a block =
     keccak_f (state_of_bits (xor_into (state_bits a) (concat (map bits_of_byte block))))"

definition squeeze :: "nat \<Rightarrow> kstate \<Rightarrow> byte list" where
  "squeeze n a = map byte_of_bits (chunks 8 (take (8 * n) (state_bits a)))"

text \<open>
  The hash object: the sponge state and the input bytes not yet absorbed (fewer than
  \<open>rate\<close>). \<^verbatim>\<open>update\<close> absorbs every complete block; \<^verbatim>\<open>digest\<close> pads the rest with
  \<^verbatim>\<open>0x01\<close>, zeros and \<^verbatim>\<open>0x80\<close> in the last byte, absorbs it and returns 32 bytes.
\<close>

record keccak_hash =
  state :: kstate
  buf :: "byte list"

definition keccak_new :: keccak_hash where
  "keccak_new = \<lparr>state = replicate 5 (replicate 5 (replicate 64 False)), buf = []\<rparr>"

function absorb :: "kstate \<Rightarrow> byte list \<Rightarrow> keccak_hash" where
  "absorb a xs =
     (if length xs < rate then \<lparr>state = a, buf = xs\<rparr>
      else absorb (absorb_block a (take rate xs)) (drop rate xs))"
  by pat_completeness auto
termination
  by (relation "measure (\<lambda>(a, xs). length xs)") (auto simp: rate_def)

declare absorb.simps [simp del]

definition update :: "keccak_hash \<Rightarrow> byte list \<Rightarrow> keccak_hash" where
  "update h data = absorb (state h) (buf h @ data)"

definition pad_block :: "byte list \<Rightarrow> byte list" where
  "pad_block b =
     (let padded = b @ [0x01] @ replicate (rate - 1 - length b) 0x00
      in butlast padded @ [last padded OR 0x80])"

definition digest :: "keccak_hash \<Rightarrow> byte list" where
  "digest h = squeeze 32 (absorb_block (state h) (pad_block (buf h)))"

section \<open>The script\<close>

text \<open>
  \<^verbatim>\<open>def keccak256(data): k = keccak.new(digest_bits=256); k.update(data); return k.digest()\<close>
\<close>

definition keccak256 :: "byte list \<Rightarrow> byte list" where
  "keccak256 data = digest (update keccak_new data)"

text \<open>\<^verbatim>\<open>def encode_u256(value): return value.to_bytes(32, 'big')\<close>\<close>

definition encode_u256 :: "int \<Rightarrow> error + byte list" where
  "encode_u256 v = int_to_bytes v 32"

text \<open>
  \<^verbatim>\<open>def encode_address(address): addr_bytes = bytes.fromhex(address[2:]);
  return b'\x00' * 12 + addr_bytes\<close>
\<close>

definition encode_address :: "string \<Rightarrow> error + byte list" where
  "encode_address address =
     and_then (fromhex (drop 2 address)) (\<lambda>addr_bytes. Inr (replicate 12 0x00 @ addr_bytes))"

definition DOMAIN_TYPE :: string where
  "DOMAIN_TYPE =
     ''EIP712Domain(string name,string version,uint256 chainId,address verifyingContract)''"

definition NAME :: string where
  "NAME = ''DataNode''"

definition VERSION :: string where
  "VERSION = ''1''"

definition CHAIN_ID :: int where
  "CHAIN_ID = 111222333"

definition VERIFYING_CONTRACT :: string where
  "VERIFYING_CONTRACT = ''0x5dE1C21682EF8b39aeB0BA9FA6068C650d3f744e''"

definition STRUCT_TYPE :: string where
  "STRUCT_TYPE = ''DataNodeRequest(string method,string path,uint256 timestamp,uint256 nonce)''"

definition METHOD :: string where
  "METHOD = ''GET''"

definition PATH :: string where
  "PATH = ''/api/v1/prices/finnhub''"

definition TIMESTAMP :: int where
  "TIMESTAMP = 1770084386"

definition NONCE :: int where
  "NONCE = 386866"

text \<open>The domain separator, lines 41 to 60 of the script.\<close>

definition domain_type_hash :: "byte list" where
  "domain_type_hash = keccak256 (encode_utf8 DOMAIN_TYPE)"

definition name_hash :: "byte list" where
  "name_hash = keccak256 (encode_utf8 NAME)"

definition version_hash :: "byte list" where
  "version_hash = keccak256 (encode_utf8 VERSION)"

definition chain_id_bytes :: "error + byte list" where
  "chain_id_bytes = encode_u256 CHAIN_ID"

definition address_bytes :: "error + byte list" where
  "address_bytes = encode_address VERIFYING_CONTRACT"

definition domain_data :: "error + byte list" where
  "domain_data =
     and_then chain_id_bytes (\<lambda>c. and_then address_bytes (\<lambda>a.
       Inr (domain_type_hash @ name_hash @ version_hash @ c @ a)))"

definition domain_separator :: "error + byte list" where
  "domain_separator = and_then domain_data (\<lambda>d. Inr (keccak256 d))"

text \<open>The struct hash, lines 69 to 88.\<close>

definition struct_type_hash :: "byte list" where
  "struct_type_hash = keccak256 (encode_utf8 STRUCT_TYPE)"

definition method_hash :: "byte list" where
  "method_hash = keccak256 (encode_utf8 METHOD)"

definition path_hash :: "byte list" where
  "path_hash = keccak256 (encode_utf8 PATH)"

definition timestamp_bytes :: "error + byte list" where
  "timestamp_bytes = encode_u256 TIMESTAMP"

definition nonce_bytes :: "error + byte list" where
  "nonce_bytes = encode_u256 NONCE"

definition struct_data :: "error + byte list" where
  "struct_data =
     and_then timestamp_bytes (\<lambda>t. and_then nonce_bytes (\<lambda>n.
       Inr (struct_type_hash @ method_hash @ path_hash @ t @ n)))"

definition struct_hash :: "error + byte list" where
  "struct_hash = and_then struct_data (\<lambda>d. Inr (keccak256 d))"

text \<open>
  The message hash, lines 97 to 99: \<^verbatim>\<open>message = b'\x19\x01' + domain_separator + struct_hash\<close>.
  \<open>message_of\<close> and \<open>message_hash_of\<close> are the two statements as functions of the two
  digests; the script runs them on the digests computed above.
\<close>

definition message_of :: "byte list \<Rightarrow> byte list \<Rightarrow> byte list" where
  "message_of ds sh = [0x19, 0x01] @ ds @ sh"

definition message_hash_of :: "byte list \<Rightarrow> byte list \<Rightarrow> byte list" where
  "message_hash_of ds sh = keccak256 (message_of ds sh)"

definition message :: "error + byte list" where
  "message = and_then domain_separator (\<lambda>ds. and_then struct_hash (\<lambda>sh. Inr (message_of ds sh)))"

definition message_hash :: "error + byte list" where
  "message_hash =
     and_then domain_separator (\<lambda>ds. and_then struct_hash (\<lambda>sh. Inr (message_hash_of ds sh)))"

text \<open>The comparison with the constants of the TypeScript implementation, lines 106 to 113.\<close>

definition ts_domain_sep :: string where
  "ts_domain_sep = ''b54e71ed181dc14d1d4268384ffba108241611e40a16197e69b9fb4468c862df''"

definition ts_struct_hash :: string where
  "ts_struct_hash = ''f126db3247e509f0c1215cdbbbfa462f367efb5c5bef8bff98534f6c2e82a0ee''"

definition ts_message_hash :: string where
  "ts_message_hash = ''af7fdd88b4ec5903cee293d25f8edde9e97ed9dc9aef5a5261cd1338e10d9a7d''"

definition domain_separator_match :: "error + bool" where
  "domain_separator_match = and_then domain_separator (\<lambda>d. Inr (hex d = ts_domain_sep))"

definition struct_hash_match :: "error + bool" where
  "struct_hash_match = and_then struct_hash (\<lambda>d. Inr (hex d = ts_struct_hash))"

definition message_hash_match :: "error + bool" where
  "message_hash_match = and_then message_hash (\<lambda>d. Inr (hex d = ts_message_hash))"

section \<open>The specification's encoder\<close>

text \<open>
  The claims that compare the script with the specification's general encoder need that
  encoder. The definitions of this section follow the words of the specification
  (sections 4.1, 4.3 and 4.4), restricted to the field types the script uses; they are not
  taken from the script. A struct value maps field names to values; the schema is the
  ordered list of its fields.
\<close>

text \<open>Decoding a big-endian byte string, as \<^verbatim>\<open>int.from_bytes(bs, 'big')\<close> does.\<close>

definition from_bytes_big :: "byte list \<Rightarrow> int" where
  "from_bytes_big bs = foldl (\<lambda>acc b. acc * 256 + uint b) 0 bs"

datatype field_type = String_t | Uint256_t | Address_t | Bytes32_t

datatype field_value = Str string | Num int | Addr string | Bytes "byte list"

datatype spec_failure = MissingFieldError string | TypeMismatchError | EncodingFailure error

fun type_name :: "field_type \<Rightarrow> string" where
  "type_name String_t = ''string''"
| "type_name Uint256_t = ''uint256''"
| "type_name Address_t = ''address''"
| "type_name Bytes32_t = ''bytes32''"

fun join_commas :: "string list \<Rightarrow> string" where
  "join_commas [] = []"
| "join_commas [s] = s"
| "join_commas (s # ss) = s @ '','' @ join_commas ss"

definition spec_typeSignature :: "string \<Rightarrow> (field_type \<times> string) list \<Rightarrow> string" where
  "spec_typeSignature tn schema =
     tn @ ''('' @ join_commas (map (\<lambda>(t, n). type_name t @ '' '' @ n) schema) @ '')''"

definition spec_typeHash :: "string \<Rightarrow> (field_type \<times> string) list \<Rightarrow> byte list" where
  "spec_typeHash tn schema = keccak256 (encode_utf8 (spec_typeSignature tn schema))"

fun spec_encodeValue :: "field_type \<Rightarrow> field_value \<Rightarrow> spec_failure + byte list" where
  "spec_encodeValue String_t (Str s) = Inr (keccak256 (encode_utf8 s))"
| "spec_encodeValue Uint256_t (Num v) = map_sum EncodingFailure id (encode_u256 v)"
| "spec_encodeValue Address_t (Addr a) = map_sum EncodingFailure id (encode_address a)"
| "spec_encodeValue Bytes32_t (Bytes bs) = Inr bs"
| "spec_encodeValue _ _ = Inl TypeMismatchError"

fun spec_encodeFields ::
  "(field_type \<times> string) list \<Rightarrow> (string \<rightharpoonup> field_value) \<Rightarrow> spec_failure + byte list" where
  "spec_encodeFields [] sv = Inr []"
| "spec_encodeFields ((t, n) # schema) sv =
     (case sv n of
        None \<Rightarrow> Inl (MissingFieldError n)
      | Some v \<Rightarrow>
          (case spec_encodeValue t v of
             Inl e \<Rightarrow> Inl e
           | Inr enc \<Rightarrow>
               (case spec_encodeFields schema sv of
                  Inl e \<Rightarrow> Inl e
                | Inr rest \<Rightarrow> Inr (enc @ rest))))"

definition spec_structHash ::
  "string \<Rightarrow> (field_type \<times> string) list \<Rightarrow> (string \<rightharpoonup> field_value) \<Rightarrow> spec_failure + byte list" where
  "spec_structHash tn schema sv =
     (case spec_encodeFields schema sv of
        Inl e \<Rightarrow> Inl e
      | Inr encs \<Rightarrow> Inr (keccak256 (spec_typeHash tn schema @ encs)))"

text \<open>
  The domain: every field is optional, and the schema of \<^verbatim>\<open>EIP712Domain\<close> is built from
  the fields present, in the canonical order name, version, chainId, verifyingContract,
  salt.
\<close>

record eip712_domain =
  d_name :: "string option"
  d_version :: "string option"
  d_chainId :: "int option"
  d_verifyingContract :: "string option"
  d_salt :: "byte list option"

definition domain_fields :: "eip712_domain \<Rightarrow> ((field_type \<times> string) \<times> field_value) list" where
  "domain_fields d =
     (case d_name d of None \<Rightarrow> [] | Some s \<Rightarrow> [((String_t, ''name''), Str s)]) @
     (case d_version d of None \<Rightarrow> [] | Some s \<Rightarrow> [((String_t, ''version''), Str s)]) @
     (case d_chainId d of None \<Rightarrow> [] | Some v \<Rightarrow> [((Uint256_t, ''chainId''), Num v)]) @
     (case d_verifyingContract d of None \<Rightarrow> []
      | Some a \<Rightarrow> [((Address_t, ''verifyingContract''), Addr a)]) @
     (case d_salt d of None \<Rightarrow> [] | Some bs \<Rightarrow> [((Bytes32_t, ''salt''), Bytes bs)])"

definition spec_domainSeparator :: "eip712_domain \<Rightarrow> spec_failure + byte list" where
  "spec_domainSeparator d =
     spec_structHash ''EIP712Domain'' (map fst (domain_fields d))
       (map_of (map (\<lambda>((t, n), v). (n, v)) (domain_fields d)))"

section \<open>The shape of the sponge state\<close>

definition wf_plane :: "plane \<Rightarrow> bool" where
  "wf_plane p = (length p = 5 \<and> list_all (\<lambda>l. length l = 64) p)"

definition wf_state :: "kstate \<Rightarrow> bool" where
  "wf_state a = (length a = 5 \<and> list_all wf_plane a)"

section \<open>Evaluation inside the kernel\<close>

text \<open>
  The digests of the script are computed by rewriting with the equations below: one step
  per bit for the lane operations, unary arithmetic for the small numbers of the sponge.
\<close>

lemma xor_lane_Nil2: "xor_lane as [] = []"
  by (cases as) simp_all

lemma xor_lane_eval:
  "xor_lane (True # as) (True # bs) = False # xor_lane as bs"
  "xor_lane (True # as) (False # bs) = True # xor_lane as bs"
  "xor_lane (False # as) (True # bs) = True # xor_lane as bs"
  "xor_lane (False # as) (False # bs) = False # xor_lane as bs"
  "xor_lane [] bs = []"
  "xor_lane as [] = []"
  by (simp_all add: xor_lane_Nil2)

lemma chi_lane_eval:
  "chi_lane (True # as) (True # bs) (True # cs) = True # chi_lane as bs cs"
  "chi_lane (True # as) (True # bs) (False # cs) = True # chi_lane as bs cs"
  "chi_lane (True # as) (False # bs) (True # cs) = False # chi_lane as bs cs"
  "chi_lane (True # as) (False # bs) (False # cs) = True # chi_lane as bs cs"
  "chi_lane (False # as) (True # bs) (True # cs) = False # chi_lane as bs cs"
  "chi_lane (False # as) (True # bs) (False # cs) = False # chi_lane as bs cs"
  "chi_lane (False # as) (False # bs) (True # cs) = True # chi_lane as bs cs"
  "chi_lane (False # as) (False # bs) (False # cs) = False # chi_lane as bs cs"
  "chi_lane [] bs cs = []"
  by simp_all

lemma xor_into_Nil2: "xor_into as [] = as"
  by (cases as) simp_all

lemma xor_into_Nil1: "xor_into [] bs = []"
  by (cases bs) simp_all

lemma xor_into_eval:
  "xor_into (True # as) (True # bs) = False # xor_into as bs"
  "xor_into (True # as) (False # bs) = True # xor_into as bs"
  "xor_into (False # as) (True # bs) = True # xor_into as bs"
  "xor_into (False # as) (False # bs) = False # xor_into as bs"
  "xor_into as [] = as"
  "xor_into [] bs = []"
  by (simp_all add: xor_into_Nil1 xor_into_Nil2)

lemma bits_of_int_eval:
  "bits_of_int 0 k = []"
  "bits_of_int (Suc n) (numeral (num.Bit0 m)) = False # bits_of_int n (numeral m)"
  "bits_of_int (Suc n) (numeral (num.Bit1 m)) = True # bits_of_int n (numeral m)"
  "bits_of_int (Suc n) (numeral num.One) = True # bits_of_int n 0"
  "bits_of_int (Suc n) 1 = True # bits_of_int n 0"
  "bits_of_int (Suc n) 0 = False # bits_of_int n 0"
  by simp_all

lemma bits_of_int_take_bit: "n \<le> m \<Longrightarrow> bits_of_int n (take_bit m k) = bits_of_int n k"
proof (induction n arbitrary: m k)
  case 0
  then show ?case by simp
next
  case (Suc n)
  then obtain m' where m: "m = Suc m'" by (cases m) auto
  with Suc.prems have "n \<le> m'" by simp
  then have "bits_of_int n (take_bit m' (k div 2)) = bits_of_int n (k div 2)"
    by (rule Suc.IH)
  then show ?case
    by (simp add: m take_bit_Suc)
qed

lemma bits_of_byte_word_of_int: "bits_of_byte (word_of_int k) = bits_of_int 8 k"
  by (simp add: bits_of_byte_def uint_word_of_int_eq bits_of_int_take_bit del: bits_of_int.simps)

lemma bits_of_byte_numeral: "bits_of_byte (numeral m) = bits_of_int 8 (numeral m)"
  using bits_of_byte_word_of_int [of "numeral m"] by simp

lemma bits_of_byte_eval:
  "bits_of_byte (numeral m) = bits_of_int 8 (numeral m)"
  "bits_of_byte 0 = bits_of_int 8 0"
  "bits_of_byte 1 = bits_of_int 8 1"
  using bits_of_byte_word_of_int [of 0] bits_of_byte_word_of_int [of 1]
  by (simp_all add: bits_of_byte_numeral del: bits_of_int.simps)

lemma bits_of_int_bit: "bits_of_int (Suc n) (of_bool b + 2 * k) = b # bits_of_int n k"
  by (cases b) simp_all

lemma bits_of_byte_of_char:
  "bits_of_byte (of_char (Char b0 b1 b2 b3 b4 b5 b6 b7)) = [b0, b1, b2, b3, b4, b5, b6, b7]"
proof -
  have "(of_char (Char b0 b1 b2 b3 b4 b5 b6 b7) :: byte) =
      word_of_int (of_bool b0 + 2 * (of_bool b1 + 2 * (of_bool b2 + 2 * (of_bool b3 + 2 *
        (of_bool b4 + 2 * (of_bool b5 + 2 * (of_bool b6 + 2 * (of_bool b7 + 2 * 0))))))))"
    by simp
  then show ?thesis
    by (simp only: bits_of_byte_word_of_int eval_nat_numeral BitM.simps bits_of_int_bit
        bits_of_int.simps(1))
qed

lemma utf8_char_ascii:
  "utf8_char (Char b0 b1 b2 b3 b4 b5 b6 False) = [of_char (Char b0 b1 b2 b3 b4 b5 b6 False)]"
proof -
  have "of_char (Char b0 b1 b2 b3 b4 b5 b6 False) < (128 :: nat)"
    by (cases b0; cases b1; cases b2; cases b3; cases b4; cases b5; cases b6) simp_all
  then show ?thesis
    by (simp only: utf8_char_def if_True)
qed

lemma or_pad_eval: "(0 :: byte) OR 0x80 = 0x80" "(1 :: byte) OR 0x80 = 0x81"
  by simp_all

lemmas keccak_eval =
  simp_thms eval_nat_numeral BitM.simps One_nat_def
  diff_Suc_Suc minus_nat.diff_0 diff_0_eq_0 Suc_less_eq zero_less_Suc not_less_zero
  mult_Suc mult_0 add_Suc plus_nat.add_0
  append.simps list.map concat.simps fold_simps take_Suc_Cons take_0 take.simps(1)
  drop_Suc_Cons drop_0 drop.simps(1) replicate.simps list.size(3) length_Cons
  last.simps butlast.simps list.distinct if_True if_False Let_def
  keccak_hash.select_convs
  xor_lane_eval xor_plane.simps rol_def column_parity.simps theta_d.simps(1) theta_def
  rho_offsets_def rho_plane.simps rho_planes.simps rho_def pi.simps(1)
  chi_lane_eval chi_plane.simps(1) chi_def bits_of_int_eval iota.simps(1)
  round_constants_def keccak_round_def keccak_f_def
  bits_of_byte_eval bits_of_byte_of_char utf8_char_ascii encode_utf8_def
  chunks.simps xor_into_eval rate_def state_bits_def state_of_bits_def
  absorb_block_def squeeze_def keccak_new_def absorb.simps update_def pad_block_def
  or_pad_eval digest_def keccak256_def

text \<open>The encoders of the script run on numerals.\<close>

lemma be_bytes_numeral:
  "be_bytes (numeral n) v = be_bytes (pred_numeral n) (v div 256) @ [word_of_int v]"
  by (simp add: numeral_eq_Suc)

lemma replicate_numeral: "replicate (numeral k) x = x # replicate (pred_numeral k) x"
  by (simp add: numeral_eq_Suc)

section \<open>The digests of the script\<close>

text \<open>
  Two known answers of Keccak-256 first, as a check of the model of the library: the
  digest of the empty input and the digest of the three bytes of \<^verbatim>\<open>abc\<close>.
\<close>

lemma keccak256_empty:
  "keccak256 [] =
    [0xc5, 0xd2, 0x46, 0x01, 0x86, 0xf7, 0x23, 0x3c, 0x92, 0x7e, 0x7d, 0xb2, 0xdc, 0xc7,
      0x03, 0xc0, 0xe5, 0x00, 0xb6, 0x53, 0xca, 0x82, 0x27, 0x3b, 0x7b, 0xfa, 0xd8, 0x04,
      0x5d, 0x85, 0xa4, 0x70]"
  apply (simp only: keccak_eval cong: if_weak_cong)
  apply simp
  done

lemma keccak256_abc:
  "keccak256 [0x61, 0x62, 0x63] =
    [0x4e, 0x03, 0x65, 0x7a, 0xea, 0x45, 0xa9, 0x4f, 0xc7, 0xd4, 0x7b, 0xa8, 0x26, 0xc8,
      0xd6, 0x67, 0xc0, 0xd1, 0xe6, 0xe3, 0x3a, 0x64, 0xa0, 0x36, 0xec, 0x44, 0xf5, 0x8f,
      0xa1, 0x2d, 0x6c, 0x45]"
  apply (simp only: keccak_eval cong: if_weak_cong)
  apply simp
  done

lemma domain_type_hash_value:
  "domain_type_hash =
    [0x8b, 0x73, 0xc3, 0xc6, 0x9b, 0xb8, 0xfe, 0x3d, 0x51, 0x2e, 0xcc, 0x4c, 0xf7, 0x59,
      0xcc, 0x79, 0x23, 0x9f, 0x7b, 0x17, 0x9b, 0x0f, 0xfa, 0xca, 0xa9, 0xa7, 0x5d, 0x52,
      0x2b, 0x39, 0x40, 0x0f]"
  apply (simp only: domain_type_hash_def DOMAIN_TYPE_def keccak_eval cong: if_weak_cong)
  apply simp
  done

lemma name_hash_value:
  "name_hash =
    [0xb9, 0x69, 0xc1, 0x20, 0x08, 0x5e, 0x20, 0x58, 0xeb, 0x5c, 0x02, 0x6e, 0x86, 0x0e,
      0xaa, 0x6d, 0x46, 0xa8, 0xfa, 0x00, 0x00, 0x87, 0xe9, 0x79, 0xcd, 0x56, 0x57, 0x10,
      0xe4, 0x73, 0x1b, 0x81]"
  apply (simp only: name_hash_def NAME_def keccak_eval cong: if_weak_cong)
  apply simp
  done

lemma version_hash_value:
  "version_hash =
    [0xc8, 0x9e, 0xfd, 0xaa, 0x54, 0xc0, 0xf2, 0x0c, 0x7a, 0xdf, 0x61, 0x28, 0x82, 0xdf,
      0x09, 0x50, 0xf5, 0xa9, 0x51, 0x63, 0x7e, 0x03, 0x07, 0xcd, 0xcb, 0x4c, 0x67, 0x2f,
      0x29, 0x8b, 0x8b, 0xc6]"
  apply (simp only: version_hash_def VERSION_def keccak_eval cong: if_weak_cong)
  apply simp
  done

lemma chain_id_bytes_value:
  "chain_id_bytes = Inr
    [0x00, 0x00, 0x00, 0x00, 0x00, 0x00, 0x00, 0x00, 0x00, 0x00, 0x00, 0x00, 0x00, 0x00,
      0x00, 0x00, 0x00, 0x00, 0x00, 0x00, 0x00, 0x00, 0x00, 0x00, 0x00, 0x00, 0x00, 0x00,
      0x06, 0xa1, 0x1e, 0x3d]"
  by (simp add: chain_id_bytes_def CHAIN_ID_def encode_u256_def int_to_bytes_def be_bytes_numeral)

lemma address_bytes_value:
  "address_bytes = Inr
    [0x00, 0x00, 0x00, 0x00, 0x00, 0x00, 0x00, 0x00, 0x00, 0x00, 0x00, 0x00, 0x5d, 0xe1,
      0xc2, 0x16, 0x82, 0xef, 0x8b, 0x39, 0xae, 0xb0, 0xba, 0x9f, 0xa6, 0x06, 0x8c, 0x65,
      0x0d, 0x3f, 0x74, 0x4e]"
  by (simp add: address_bytes_def VERIFYING_CONTRACT_def encode_address_def py_isspace_def
      hex_value_def replicate_numeral)

lemma domain_separator_value:
  "domain_separator = Inr
    [0xb5, 0x4e, 0x71, 0xed, 0x18, 0x1d, 0xc1, 0x4d, 0x1d, 0x42, 0x68, 0x38, 0x4f, 0xfb,
      0xa1, 0x08, 0x24, 0x16, 0x11, 0xe4, 0x0a, 0x16, 0x19, 0x7e, 0x69, 0xb9, 0xfb, 0x44,
      0x68, 0xc8, 0x62, 0xdf]"
  apply (simp only: domain_separator_def domain_data_def chain_id_bytes_value
      address_bytes_value domain_type_hash_value name_hash_value version_hash_value
      and_then.simps)
  apply (simp only: keccak_eval cong: if_weak_cong)
  apply simp
  done

lemma struct_type_hash_value:
  "struct_type_hash =
    [0xfa, 0xb7, 0xc5, 0x03, 0x59, 0xba, 0x19, 0x49, 0x16, 0x63, 0x94, 0x3d, 0x6a, 0x8d,
      0x9a, 0xf4, 0x98, 0x14, 0xea, 0x6d, 0x75, 0xa0, 0x10, 0x83, 0x14, 0xd6, 0x14, 0x86,
      0xcf, 0x63, 0x7f, 0x23]"
  apply (simp only: struct_type_hash_def STRUCT_TYPE_def keccak_eval cong: if_weak_cong)
  apply simp
  done

lemma method_hash_value:
  "method_hash =
    [0x5a, 0x61, 0xba, 0xbe, 0xb7, 0x6c, 0x55, 0x47, 0x83, 0xca, 0x90, 0xa1, 0xa2, 0x50,
      0xe8, 0x4f, 0x1b, 0x70, 0x34, 0x09, 0xfd, 0xff, 0x33, 0xc2, 0x17, 0xab, 0x64, 0xdd,
      0x51, 0xf0, 0x51, 0x99]"
  apply (simp only: method_hash_def METHOD_def keccak_eval cong: if_weak_cong)
  apply simp
  done

lemma path_hash_value:
  "path_hash =
    [0xdf, 0xdd, 0x2b, 0xc6, 0xb2, 0x70, 0x52, 0x83, 0xda, 0x03, 0xa3, 0x09, 0xfa, 0x7b,
      0x38, 0x21, 0xb3, 0x27, 0x06, 0x75, 0x12, 0x42, 0x63, 0x8e, 0x73, 0xd8, 0x08, 0x4c,
      0xda, 0xfa, 0x1c, 0x0a]"
  apply (simp only: path_hash_def PATH_def keccak_eval cong: if_weak_cong)
  apply simp
  done

lemma timestamp_bytes_value:
  "timestamp_bytes = Inr
    [0x00, 0x00, 0x00, 0x00, 0x00, 0x00, 0x00, 0x00, 0x00, 0x00, 0x00, 0x00, 0x00, 0x00,
      0x00, 0x00, 0x00, 0x00, 0x00, 0x00, 0x00, 0x00, 0x00, 0x00, 0x00, 0x00, 0x00, 0x00,
      0x69, 0x81, 0x58, 0x22]"
  by (simp add: timestamp_bytes_def TIMESTAMP_def encode_u256_def int_to_bytes_def be_bytes_numeral)

lemma nonce_bytes_value:
  "nonce_bytes = Inr
    [0x00, 0x00, 0x00, 0x00, 0x00, 0x00, 0x00, 0x00, 0x00, 0x00, 0x00, 0x00, 0x00, 0x00,
      0x00, 0x00, 0x00, 0x00, 0x00, 0x00, 0x00, 0x00, 0x00, 0x00, 0x00, 0x00, 0x00, 0x00,
      0x00, 0x05, 0xe7, 0x32]"
  by (simp add: nonce_bytes_def NONCE_def encode_u256_def int_to_bytes_def be_bytes_numeral)

lemma struct_hash_value:
  "struct_hash = Inr
    [0xf1, 0x26, 0xdb, 0x32, 0x47, 0xe5, 0x09, 0xf0, 0xc1, 0x21, 0x5c, 0xdb, 0xbb, 0xfa,
      0x46, 0x2f, 0x36, 0x7e, 0xfb, 0x5c, 0x5b, 0xef, 0x8b, 0xff, 0x98, 0x53, 0x4f, 0x6c,
      0x2e, 0x82, 0xa0, 0xee]"
  apply (simp only: struct_hash_def struct_data_def timestamp_bytes_value nonce_bytes_value
      struct_type_hash_value method_hash_value path_hash_value and_then.simps)
  apply (simp only: keccak_eval cong: if_weak_cong)
  apply simp
  done

lemma message_hash_value:
  "message_hash = Inr
    [0xaf, 0x7f, 0xdd, 0x88, 0xb4, 0xec, 0x59, 0x03, 0xce, 0xe2, 0x93, 0xd2, 0x5f, 0x8e,
      0xdd, 0xe9, 0xe9, 0x7e, 0xd9, 0xdc, 0x9a, 0xef, 0x5a, 0x52, 0x61, 0xcd, 0x13, 0x38,
      0xe1, 0x0d, 0x9a, 0x7d]"
  apply (simp only: message_hash_def message_hash_of_def message_of_def
      domain_separator_value struct_hash_value and_then.simps)
  apply (simp only: keccak_eval cong: if_weak_cong)
  apply simp
  done


section \<open>Properties of the encoders\<close>

lemma length_be_bytes: "length (be_bytes n v) = n"
  by (induction n arbitrary: v) simp_all

lemma nth_be_bytes: "i < n \<Longrightarrow> be_bytes n v ! i = word_of_int (v div 256 ^ (n - 1 - i))"
proof (induction n arbitrary: v i)
  case 0
  then show ?case by simp
next
  case (Suc n)
  show ?case
  proof (cases "i < n")
    case True
    then have "be_bytes (Suc n) v ! i = be_bytes n (v div 256) ! i"
      by (simp add: nth_append length_be_bytes)
    also have "\<dots> = word_of_int (v div 256 div 256 ^ (n - 1 - i))"
      using True by (rule Suc.IH)
    also have "v div 256 div 256 ^ (n - 1 - i) = v div 256 ^ Suc (n - 1 - i)"
      by (simp add: zdiv_zmult2_eq)
    also have "Suc (n - 1 - i) = Suc n - 1 - i"
      using True by simp
    finally show ?thesis .
  next
    case False
    with Suc.prems have "i = n" by simp
    then show ?thesis
      by (simp add: nth_append length_be_bytes)
  qed
qed

lemma from_bytes_big_snoc: "from_bytes_big (bs @ [b]) = from_bytes_big bs * 256 + uint b"
  by (simp add: from_bytes_big_def)

lemma from_bytes_big_be_bytes: "from_bytes_big (be_bytes n v) = v mod 256 ^ n"
proof (induction n arbitrary: v)
  case 0
  then show ?case by (simp add: from_bytes_big_def)
next
  case (Suc n)
  have "uint (word_of_int v :: byte) = v mod 256"
    by (simp add: uint_word_of_int_eq take_bit_eq_mod)
  then have "from_bytes_big (be_bytes (Suc n) v) = (v div 256) mod 256 ^ n * 256 + v mod 256"
    by (simp add: from_bytes_big_snoc Suc.IH)
  also have "\<dots> = v mod 256 ^ Suc n"
    by (simp add: zmod_zmult2_eq)
  finally show ?case .
qed

lemma hex_value_not_space: "hex_value c = Some h \<Longrightarrow> \<not> py_isspace c"
  by (auto simp add: hex_value_def py_isspace_def Let_def split: if_splits)

lemma and_then_eq_Inl:
  "(and_then r f = Inl e) = (r = Inl e \<or> (\<exists>x. r = Inr x \<and> f x = Inl e))"
  by (cases r) simp_all

lemma fromhex_error: "fromhex s = Inl e \<Longrightarrow> e = ValueError"
  by (induction s rule: fromhex.induct)
    (auto simp add: and_then_eq_Inl split: if_splits option.splits list.splits)

lemma fromhex_digits:
  "\<forall>c \<in> set s. hex_value c \<noteq> None \<Longrightarrow> length s = 2 * n \<Longrightarrow>
     \<exists>bs. fromhex s = Inr bs \<and> length bs = n"
proof (induction n arbitrary: s)
  case 0
  then show ?case by simp
next
  case (Suc n)
  then obtain c d ds where s: "s = c # d # ds" and ds: "length ds = 2 * n"
    by (cases s; cases "tl s") auto
  from Suc.prems(1) s obtain hi lo where hi: "hex_value c = Some hi" and lo: "hex_value d = Some lo"
    by auto
  from Suc.prems(1) s have "\<forall>c \<in> set ds. hex_value c \<noteq> None"
    by simp
  then obtain bs where bs: "fromhex ds = Inr bs" "length bs = n"
    using ds Suc.IH by blast
  from hi have "\<not> py_isspace c"
    by (rule hex_value_not_space)
  then show ?case
    by (simp add: s hi lo bs)
qed

section \<open>The sponge keeps the shape of its state\<close>

lemma length_xor_lane: "length (xor_lane a b) = min (length a) (length b)"
  by (induction a b rule: xor_lane.induct) simp_all

lemma length_chi_lane: "length (chi_lane a b c) = min (length a) (min (length b) (length c))"
  by (induction a b c rule: chi_lane.induct) simp_all

lemma length_rol: "length (rol n a) = length a"
  by (simp add: rol_def)

lemma length_bits_of_int: "length (bits_of_int n k) = n"
  by (induction n arbitrary: k) simp_all

lemma length_xor_into: "length (xor_into a b) = length a"
  by (induction a b rule: xor_into.induct) simp_all

lemma list5: "length xs = 5 \<Longrightarrow> \<exists>x0 x1 x2 x3 x4. xs = [x0, x1, x2, x3, x4]"
  by (auto simp add: length_Suc_conv eval_nat_numeral)

lemma wf_planeE:
  assumes "wf_plane p"
  obtains l0 l1 l2 l3 l4 where "p = [l0, l1, l2, l3, l4]"
    and "length l0 = 64" and "length l1 = 64" and "length l2 = 64"
    and "length l3 = 64" and "length l4 = 64"
proof -
  from assms have "length p = 5" and all: "list_all (\<lambda>l. length l = 64) p"
    by (simp_all add: wf_plane_def)
  then obtain l0 l1 l2 l3 l4 where p: "p = [l0, l1, l2, l3, l4]"
    using list5 by blast
  with all show thesis
    by (intro that [of l0 l1 l2 l3 l4]) simp_all
qed

lemma wf_planeI:
  "length l0 = 64 \<Longrightarrow> length l1 = 64 \<Longrightarrow> length l2 = 64 \<Longrightarrow> length l3 = 64 \<Longrightarrow>
   length l4 = 64 \<Longrightarrow> wf_plane [l0, l1, l2, l3, l4]"
  by (simp add: wf_plane_def)

lemma wf_stateE:
  assumes "wf_state a"
  obtains p0 p1 p2 p3 p4 where "a = [p0, p1, p2, p3, p4]"
    and "wf_plane p0" and "wf_plane p1" and "wf_plane p2" and "wf_plane p3" and "wf_plane p4"
proof -
  from assms have "length a = 5" and all: "list_all wf_plane a"
    by (simp_all add: wf_state_def)
  then obtain p0 p1 p2 p3 p4 where a: "a = [p0, p1, p2, p3, p4]"
    using list5 by blast
  with all show thesis
    by (intro that [of p0 p1 p2 p3 p4]) simp_all
qed

lemma wf_stateI:
  "wf_plane p0 \<Longrightarrow> wf_plane p1 \<Longrightarrow> wf_plane p2 \<Longrightarrow> wf_plane p3 \<Longrightarrow> wf_plane p4 \<Longrightarrow>
   wf_state [p0, p1, p2, p3, p4]"
  by (simp add: wf_state_def)

lemma wf_xor_plane:
  assumes "wf_plane p" and "wf_plane q"
  shows "wf_plane (xor_plane p q)"
proof -
  from assms(1) obtain a0 a1 a2 a3 a4 where p: "p = [a0, a1, a2, a3, a4]"
    and a: "length a0 = 64" "length a1 = 64" "length a2 = 64" "length a3 = 64" "length a4 = 64"
    by (rule wf_planeE)
  from assms(2) obtain b0 b1 b2 b3 b4 where q: "q = [b0, b1, b2, b3, b4]"
    and b: "length b0 = 64" "length b1 = 64" "length b2 = 64" "length b3 = 64" "length b4 = 64"
    by (rule wf_planeE)
  show ?thesis
    by (simp add: p q a b wf_plane_def length_xor_lane)
qed

lemma wf_column_parity:
  assumes "wf_state a"
  shows "wf_plane (column_parity a)"
proof -
  from assms obtain p0 p1 p2 p3 p4 where a: "a = [p0, p1, p2, p3, p4]"
    and p: "wf_plane p0" "wf_plane p1" "wf_plane p2" "wf_plane p3" "wf_plane p4"
    by (rule wf_stateE)
  show ?thesis
    by (simp add: a p wf_xor_plane)
qed

lemma wf_theta_d:
  assumes "wf_plane c"
  shows "wf_plane (theta_d c)"
proof -
  from assms obtain c0 c1 c2 c3 c4 where c: "c = [c0, c1, c2, c3, c4]"
    and l: "length c0 = 64" "length c1 = 64" "length c2 = 64" "length c3 = 64" "length c4 = 64"
    by (rule wf_planeE)
  show ?thesis
    by (simp add: c l wf_plane_def length_xor_lane length_rol)
qed

lemma wf_theta:
  assumes "wf_state a"
  shows "wf_state (theta a)"
proof -
  have d: "wf_plane (theta_d (column_parity a))"
    using assms by (intro wf_theta_d wf_column_parity)
  from assms obtain p0 p1 p2 p3 p4 where a: "a = [p0, p1, p2, p3, p4]"
    and p: "wf_plane p0" "wf_plane p1" "wf_plane p2" "wf_plane p3" "wf_plane p4"
    by (rule wf_stateE)
  from d p show ?thesis
    unfolding theta_def a by (simp add: wf_state_def wf_xor_plane del: column_parity.simps)
qed

lemma wf_rho_plane:
  assumes "wf_plane p" and "length ns = 5"
  shows "wf_plane (rho_plane ns p)"
proof -
  from assms(1) obtain a0 a1 a2 a3 a4 where p: "p = [a0, a1, a2, a3, a4]"
    and a: "length a0 = 64" "length a1 = 64" "length a2 = 64" "length a3 = 64" "length a4 = 64"
    by (rule wf_planeE)
  from assms(2) obtain n0 n1 n2 n3 n4 where ns: "ns = [n0, n1, n2, n3, n4]"
    using list5 by blast
  show ?thesis
    by (simp add: p ns a wf_plane_def length_rol)
qed

lemma wf_rho:
  assumes "wf_state a"
  shows "wf_state (rho a)"
proof -
  from assms obtain p0 p1 p2 p3 p4 where a: "a = [p0, p1, p2, p3, p4]"
    and p: "wf_plane p0" "wf_plane p1" "wf_plane p2" "wf_plane p3" "wf_plane p4"
    by (rule wf_stateE)
  show ?thesis
    by (simp add: a p rho_def rho_offsets_def wf_state_def wf_rho_plane)
qed

lemma wf_pi:
  assumes "wf_state a"
  shows "wf_state (pi a)"
proof -
  from assms obtain p0 p1 p2 p3 p4 where a: "a = [p0, p1, p2, p3, p4]"
    and p: "wf_plane p0" "wf_plane p1" "wf_plane p2" "wf_plane p3" "wf_plane p4"
    by (rule wf_stateE)
  from p(1) obtain a00 a10 a20 a30 a40 where p0: "p0 = [a00, a10, a20, a30, a40]"
    and l0: "length a00 = 64" "length a10 = 64" "length a20 = 64" "length a30 = 64"
      "length a40 = 64"
    by (rule wf_planeE)
  from p(2) obtain a01 a11 a21 a31 a41 where p1: "p1 = [a01, a11, a21, a31, a41]"
    and l1: "length a01 = 64" "length a11 = 64" "length a21 = 64" "length a31 = 64"
      "length a41 = 64"
    by (rule wf_planeE)
  from p(3) obtain a02 a12 a22 a32 a42 where p2: "p2 = [a02, a12, a22, a32, a42]"
    and l2: "length a02 = 64" "length a12 = 64" "length a22 = 64" "length a32 = 64"
      "length a42 = 64"
    by (rule wf_planeE)
  from p(4) obtain a03 a13 a23 a33 a43 where p3: "p3 = [a03, a13, a23, a33, a43]"
    and l3: "length a03 = 64" "length a13 = 64" "length a23 = 64" "length a33 = 64"
      "length a43 = 64"
    by (rule wf_planeE)
  from p(5) obtain a04 a14 a24 a34 a44 where p4: "p4 = [a04, a14, a24, a34, a44]"
    and l4: "length a04 = 64" "length a14 = 64" "length a24 = 64" "length a34 = 64"
      "length a44 = 64"
    by (rule wf_planeE)
  show ?thesis
    unfolding a p0 p1 p2 p3 p4 pi.simps(1)
    by (intro wf_stateI wf_planeI l0 l1 l2 l3 l4)
qed

lemma wf_chi_plane:
  assumes "wf_plane p"
  shows "wf_plane (chi_plane p)"
proof -
  from assms obtain a0 a1 a2 a3 a4 where p: "p = [a0, a1, a2, a3, a4]"
    and a: "length a0 = 64" "length a1 = 64" "length a2 = 64" "length a3 = 64" "length a4 = 64"
    by (rule wf_planeE)
  show ?thesis
    by (simp add: p a wf_plane_def length_chi_lane)
qed

lemma wf_chi: "wf_state a \<Longrightarrow> wf_state (chi a)"
  by (simp add: wf_state_def chi_def list_all_iff wf_chi_plane)

lemma wf_iota:
  assumes "wf_state a" and "length rc = 64"
  shows "wf_state (iota rc a)"
proof -
  from assms(1) obtain p0 p1 p2 p3 p4 where a: "a = [p0, p1, p2, p3, p4]"
    and p: "wf_plane p0" "wf_plane p1" "wf_plane p2" "wf_plane p3" "wf_plane p4"
    by (rule wf_stateE)
  from p(1) obtain a0 a1 a2 a3 a4 where p0: "p0 = [a0, a1, a2, a3, a4]"
    and l: "length a0 = 64" "length a1 = 64" "length a2 = 64" "length a3 = 64" "length a4 = 64"
    by (rule wf_planeE)
  have "wf_plane [xor_lane a0 rc, a1, a2, a3, a4]"
    by (simp add: wf_plane_def l assms(2) length_xor_lane)
  with p show ?thesis
    by (simp add: a p0 wf_state_def)
qed

lemma wf_keccak_round: "wf_state a \<Longrightarrow> length rc = 64 \<Longrightarrow> wf_state (keccak_round rc a)"
  by (simp add: keccak_round_def wf_iota wf_chi wf_pi wf_rho wf_theta)

lemma wf_fold_keccak_round:
  "list_all (\<lambda>rc. length rc = 64) rcs \<Longrightarrow> wf_state a \<Longrightarrow> wf_state (fold keccak_round rcs a)"
  by (induction rcs arbitrary: a) (simp_all add: wf_keccak_round)

lemma wf_keccak_f: "wf_state a \<Longrightarrow> wf_state (keccak_f a)"
  unfolding keccak_f_def
  by (rule wf_fold_keccak_round) (simp_all add: list_all_iff length_bits_of_int)

lemma length_chunks:
  "length xs = k * Suc n \<Longrightarrow>
     length (chunks (Suc n) xs) = k \<and> list_all (\<lambda>c. length c = Suc n) (chunks (Suc n) xs)"
proof (induction k arbitrary: xs)
  case 0
  then show ?case by simp
next
  case (Suc k)
  then obtain y ys where xs: "xs = y # ys" and ys: "length ys = n + k * Suc n"
    by (cases xs) auto
  from ys have "length (drop n ys) = k * Suc n"
    by simp
  then have "length (chunks (Suc n) (drop n ys)) = k \<and>
      list_all (\<lambda>c. length c = Suc n) (chunks (Suc n) (drop n ys))"
    by (rule Suc.IH)
  with ys show ?case
    by (simp add: xs)
qed

lemma list_all_chunks: "list_all P xs \<Longrightarrow> list_all (list_all P) (chunks n xs)"
proof (induction n xs rule: chunks.induct)
  case (3 n x xs)
  from "3.prems" have "list_all P (take n xs)" and "list_all P (drop n xs)"
    by (auto simp add: list_all_iff dest: in_set_takeD in_set_dropD)
  with 3 show ?case
    by simp
qed simp_all

lemma wf_state_of_bits:
  assumes "length bs = 1600"
  shows "wf_state (state_of_bits bs)"
proof -
  from assms have "length bs = 25 * Suc 63"
    by simp
  then have lanes: "length (chunks (Suc 63) bs) = 25 \<and>
      list_all (\<lambda>c. length c = Suc 63) (chunks (Suc 63) bs)"
    by (rule length_chunks)
  then have "length (chunks (Suc 63) bs) = 5 * Suc 4"
    by simp
  then have planes: "length (chunks (Suc 4) (chunks (Suc 63) bs)) = 5 \<and>
      list_all (\<lambda>c. length c = Suc 4) (chunks (Suc 4) (chunks (Suc 63) bs))"
    by (rule length_chunks)
  from lanes have "list_all (list_all (\<lambda>c. length c = Suc 63)) (chunks (Suc 4) (chunks (Suc 63) bs))"
    by (intro list_all_chunks) simp
  with planes have "wf_state (chunks (Suc 4) (chunks (Suc 63) bs))"
    by (auto simp add: wf_state_def wf_plane_def list_all_iff)
  moreover have "Suc 63 = 64" and "Suc 4 = 5"
    by simp_all
  ultimately show ?thesis
    by (simp only: state_of_bits_def)
qed

lemma length_state_bits:
  assumes "wf_state a"
  shows "length (state_bits a) = 1600"
proof -
  have plane: "length (concat p) = 320" if "wf_plane p" for p
  proof -
    from that obtain a0 a1 a2 a3 a4 where "p = [a0, a1, a2, a3, a4]"
      and "length a0 = 64" "length a1 = 64" "length a2 = 64" "length a3 = 64" "length a4 = 64"
      by (rule wf_planeE)
    then show ?thesis by simp
  qed
  from assms obtain p0 p1 p2 p3 p4 where a: "a = [p0, p1, p2, p3, p4]"
    and p: "wf_plane p0" "wf_plane p1" "wf_plane p2" "wf_plane p3" "wf_plane p4"
    by (rule wf_stateE)
  show ?thesis
    by (simp add: state_bits_def a plane p)
qed

lemma wf_absorb_block: "wf_state a \<Longrightarrow> wf_state (absorb_block a block)"
  by (simp add: absorb_block_def wf_keccak_f wf_state_of_bits length_xor_into length_state_bits)

lemma wf_absorb: "wf_state a \<Longrightarrow> wf_state (state (absorb a xs))"
proof (induction a xs rule: absorb.induct)
  case (1 a xs)
  then show ?case
    by (subst absorb.simps) (simp add: wf_absorb_block)
qed

lemma wf_keccak_new: "wf_state (state keccak_new)"
  by (simp add: keccak_new_def wf_state_def wf_plane_def list_all_iff)

lemma length_squeeze:
  assumes "wf_state a"
  shows "length (squeeze 32 a) = 32"
proof -
  have "length (take (8 * 32) (state_bits a)) = 32 * Suc 7"
    using assms by (simp add: length_state_bits)
  then have "length (chunks (Suc 7) (take (8 * 32) (state_bits a))) = 32"
    using length_chunks by blast
  moreover have "Suc 7 = 8"
    by simp
  ultimately show ?thesis
    by (simp only: squeeze_def length_map)
qed

lemma length_keccak256: "length (keccak256 b) = 32"
  by (simp add: keccak256_def digest_def update_def length_squeeze wf_absorb_block wf_absorb
      wf_keccak_new)

section \<open>The claims\<close>

text \<open>
  C1. For the domain of the script (name \<^verbatim>\<open>DataNode\<close>, version \<^verbatim>\<open>1\<close>, chainId
  111222333, verifyingContract \<^verbatim>\<open>0x5dE1...744e\<close>) the domain separator is a digest of
  32 bytes. The specification prints it with 63 hexadecimal digits,
  \<^verbatim>\<open>0xb54e...c862d\<close>; the script computes \<^verbatim>\<open>0xb54e...c862df\<close>, the 64 digits of its
  own constant \<^verbatim>\<open>ts_domain_sep\<close>. The theorem is the claim with the full digest.
\<close>

theorem domain_separator_digest:
  "domain_separator =
     Inr (be_bytes 32 0xb54e71ed181dc14d1d4268384ffba108241611e40a16197e69b9fb4468c862df) \<and>
   map_sum id length domain_separator = Inr 32"
  by (simp add: domain_separator_value be_bytes_numeral)

text \<open>
  C1, as the specification states it: the digest read as a number is not the value of
  the 63 digits, and its hexadecimal form is not that string.
\<close>

theorem domain_separator_spec_digest_counterexample:
  "domain_separator \<noteq>
     Inr (be_bytes 32 0xb54e71ed181dc14d1d4268384ffba108241611e40a16197e69b9fb4468c862d) \<and>
   map_sum id hex domain_separator \<noteq>
     Inr ''b54e71ed181dc14d1d4268384ffba108241611e40a16197e69b9fb4468c862d''"
  by (simp add: domain_separator_value be_bytes_numeral hex_def hex_byte_def hex_digit_def)

text \<open>
  C2. For all 32-byte values \<open>ds\<close> (domain separator) and \<open>sh\<close> (struct hash), the message
  hash of the script is the Keccak-256 digest of the preimage that consists of the two
  bytes \<^verbatim>\<open>0x19 0x01\<close>, then \<open>ds\<close>, then \<open>sh\<close>, and the preimage the script builds has
  exactly 66 bytes.
\<close>

theorem message_hash_preimage:
  "length ds = 32 \<Longrightarrow> length sh = 32 \<Longrightarrow>
     message_hash_of ds sh = keccak256 (0x19 # 0x01 # ds @ sh) \<and>
     length (message_of ds sh) = 66 \<and>
     take 2 (message_of ds sh) = [0x19, 0x01] \<and>
     take 32 (drop 2 (message_of ds sh)) = ds \<and> drop 34 (message_of ds sh) = sh"
  by (simp add: message_hash_of_def message_of_def)

theorem message_hash_preimage_witness:
  "message_hash_of (replicate 32 0) (replicate 32 1) =
     keccak256 (0x19 # 0x01 # replicate 32 0 @ replicate 32 1) \<and>
   length (message_of (replicate 32 0) (replicate 32 1)) = 66"
  using message_hash_preimage [of "replicate 32 0" "replicate 32 1"] by simp

text \<open>
  C3. \<open>encode_u256\<close> returns the 32-byte big-endian encoding of its argument when
  \<open>0 \<le> value \<le> 2^256 - 1\<close>: byte \<open>i\<close> is \<open>value div 256^(31 - i) mod 256\<close>. For a negative
  value and for a value above \<open>2^256 - 1\<close> it fails and returns no bytes, so nothing is
  truncated. The failure is Python's \<^verbatim>\<open>OverflowError\<close>, which is what the
  specification calls a range error.
\<close>

theorem encode_u256_range:
  "(0 \<le> v \<and> v \<le> 2 ^ 256 - 1 \<longrightarrow>
      encode_u256 v = Inr (be_bytes 32 v) \<and> length (be_bytes 32 v) = 32 \<and>
      (\<forall>i < 32. uint (be_bytes 32 v ! i) = v div 256 ^ (31 - i) mod 256)) \<and>
   (v < 0 \<or> 2 ^ 256 - 1 < v \<longrightarrow> encode_u256 v = Inl OverflowError)"
proof -
  have p: "(256 :: int) ^ 32 = 2 ^ 256"
    by simp
  have "uint (be_bytes 32 v ! i) = v div 256 ^ (31 - i) mod 256" if "i < 32" for i
    using that by (simp add: nth_be_bytes uint_word_of_int_eq take_bit_eq_mod)
  then show ?thesis
    by (auto simp add: encode_u256_def int_to_bytes_def length_be_bytes p simp del: be_bytes.simps)
qed

theorem encode_u256_range_witness:
  "encode_u256 1 = Inr (be_bytes 32 1) \<and> length (be_bytes 32 1) = 32 \<and>
   uint (be_bytes 32 1 ! 31) = 1 \<and> encode_u256 (- 1) = Inl OverflowError \<and>
   encode_u256 (2 ^ 256) = Inl OverflowError"
  using encode_u256_range [of 1] encode_u256_range [of "- 1"] encode_u256_range [of "2 ^ 256"]
  by simp

text \<open>
  C4. \<open>encode_address\<close> checks no length. When the text after the first two characters
  decodes to the bytes \<open>bs\<close>, the result is 12 zero bytes followed by \<open>bs\<close>, which is 32
  bytes when \<open>bs\<close> has 20 bytes and \<open>12 + length bs\<close> bytes in general; the only failure
  is the \<^verbatim>\<open>ValueError\<close> of \<^verbatim>\<open>bytes.fromhex\<close> for text that is not hexadecimal.
\<close>

theorem encode_address_padding:
  "(fromhex (drop 2 address) = Inr bs \<longrightarrow>
      encode_address address = Inr (replicate 12 0 @ bs) \<and>
      length (replicate 12 0 @ bs) = 12 + length bs \<and>
      (length bs = 20 \<longrightarrow> length (replicate 12 0 @ bs) = 32)) \<and>
   (fromhex (drop 2 address) = Inl e \<longrightarrow> e = ValueError \<and> encode_address address = Inl ValueError)"
  using fromhex_error [of "drop 2 address" e] by (auto simp add: encode_address_def)

theorem encode_address_padding_witness:
  "fromhex (drop 2 VERIFYING_CONTRACT) =
     Inr [0x5d, 0xe1, 0xc2, 0x16, 0x82, 0xef, 0x8b, 0x39, 0xae, 0xb0, 0xba, 0x9f, 0xa6, 0x06,
          0x8c, 0x65, 0x0d, 0x3f, 0x74, 0x4e] \<and>
   encode_address VERIFYING_CONTRACT =
     Inr (replicate 12 0 @
         [0x5d, 0xe1, 0xc2, 0x16, 0x82, 0xef, 0x8b, 0x39, 0xae, 0xb0, 0xba, 0x9f, 0xa6, 0x06,
          0x8c, 0x65, 0x0d, 0x3f, 0x74, 0x4e]) \<and>
   fromhex (drop 2 ''0xzz'') = Inl ValueError \<and> encode_address ''0xzz'' = Inl ValueError"
proof -
  have a: "fromhex (drop 2 VERIFYING_CONTRACT) =
     Inr [0x5d, 0xe1, 0xc2, 0x16, 0x82, 0xef, 0x8b, 0x39, 0xae, 0xb0, 0xba, 0x9f, 0xa6, 0x06,
          0x8c, 0x65, 0x0d, 0x3f, 0x74, 0x4e]"
    by (simp add: VERIFYING_CONTRACT_def hex_value_def py_isspace_def)
  have b: "fromhex (drop 2 ''0xzz'') = Inl ValueError"
    by (simp add: hex_value_def py_isspace_def)
  from a b encode_address_padding [of VERIFYING_CONTRACT _ ValueError]
    encode_address_padding [of "''0xzz''" "[]" ValueError]
  show ?thesis
    by simp
qed

text \<open>
  C4, as the specification states it (a length error for every input that is not 20
  bytes): the one-byte address \<^verbatim>\<open>0xab\<close> is encoded without any error, to 13 bytes.
\<close>

theorem encode_address_length_counterexample:
  "fromhex (drop 2 ''0xab'') = Inr [0xab] \<and>
   encode_address ''0xab'' = Inr [0, 0, 0, 0, 0, 0, 0, 0, 0, 0, 0, 0, 0xab]"
  by (simp add: encode_address_def hex_value_def py_isspace_def replicate_numeral)

text \<open>
  C5. For the request of the script (method \<^verbatim>\<open>GET\<close>, path
  \<^verbatim>\<open>/api/v1/prices/finnhub\<close>, timestamp 1770084386, nonce 386866) the struct hash is
  the Keccak-256 digest of the type hash (the digest of the UTF-8 bytes of the canonical
  type string) followed by the 32-byte encodings of the four field values in schema
  order: the digests of the two strings and the big-endian encodings of the two numbers.
  It is the value of the specification's \<open>structHash\<close> for the schema
  \<^verbatim>\<open>DataNodeRequest\<close>, whose type signature is the script's \<open>STRUCT_TYPE\<close>.
\<close>

theorem struct_hash_is_spec_struct_hash:
  "struct_hash =
     Inr (keccak256
       (keccak256 (encode_utf8
          ''DataNodeRequest(string method,string path,uint256 timestamp,uint256 nonce)'') @
        keccak256 (encode_utf8 ''GET'') @
        keccak256 (encode_utf8 ''/api/v1/prices/finnhub'') @
        be_bytes 32 1770084386 @ be_bytes 32 386866)) \<and>
   length (keccak256 (encode_utf8 ''GET'')) = 32 \<and>
   length (keccak256 (encode_utf8 ''/api/v1/prices/finnhub'')) = 32 \<and>
   length (be_bytes 32 1770084386) = 32 \<and> length (be_bytes 32 386866) = 32 \<and>
   spec_typeSignature ''DataNodeRequest''
     [(String_t, ''method''), (String_t, ''path''), (Uint256_t, ''timestamp''),
      (Uint256_t, ''nonce'')] = STRUCT_TYPE \<and>
   map_sum EncodingFailure id struct_hash =
     spec_structHash ''DataNodeRequest''
       [(String_t, ''method''), (String_t, ''path''), (Uint256_t, ''timestamp''),
        (Uint256_t, ''nonce'')]
       [''method'' \<mapsto> Str ''GET'', ''path'' \<mapsto> Str ''/api/v1/prices/finnhub'',
        ''timestamp'' \<mapsto> Num 1770084386, ''nonce'' \<mapsto> Num 386866]"
proof -
  have t: "encode_u256 1770084386 = Inr (be_bytes 32 1770084386)"
    by (simp add: encode_u256_def int_to_bytes_def)
  have n: "encode_u256 386866 = Inr (be_bytes 32 386866)"
    by (simp add: encode_u256_def int_to_bytes_def)
  have sig: "spec_typeSignature ''DataNodeRequest''
     [(String_t, ''method''), (String_t, ''path''), (Uint256_t, ''timestamp''),
      (Uint256_t, ''nonce'')] = STRUCT_TYPE"
    by (simp add: spec_typeSignature_def STRUCT_TYPE_def)
  have h: "struct_hash =
     Inr (keccak256 (keccak256 (encode_utf8 STRUCT_TYPE) @ keccak256 (encode_utf8 ''GET'') @
        keccak256 (encode_utf8 ''/api/v1/prices/finnhub'') @
        be_bytes 32 1770084386 @ be_bytes 32 386866))"
    by (simp add: struct_hash_def struct_data_def struct_type_hash_def method_hash_def
        path_hash_def timestamp_bytes_def nonce_bytes_def METHOD_def PATH_def TIMESTAMP_def
        NONCE_def t n)
  have s: "spec_structHash ''DataNodeRequest''
       [(String_t, ''method''), (String_t, ''path''), (Uint256_t, ''timestamp''),
        (Uint256_t, ''nonce'')]
       [''method'' \<mapsto> Str ''GET'', ''path'' \<mapsto> Str ''/api/v1/prices/finnhub'',
        ''timestamp'' \<mapsto> Num 1770084386, ''nonce'' \<mapsto> Num 386866] =
     Inr (keccak256 (keccak256 (encode_utf8 STRUCT_TYPE) @ keccak256 (encode_utf8 ''GET'') @
        keccak256 (encode_utf8 ''/api/v1/prices/finnhub'') @
        be_bytes 32 1770084386 @ be_bytes 32 386866))"
    by (simp add: spec_structHash_def spec_typeHash_def sig t n)
  show ?thesis
    unfolding h s sig
    by (simp add: length_keccak256 length_be_bytes STRUCT_TYPE_def del: be_bytes.simps)
qed

text \<open>
  C6. The domain separator of the script is the specification's struct hash of
  \<^verbatim>\<open>EIP712Domain\<close> over the fields present (name, version, chainId, verifyingContract,
  no salt) in the canonical order: the Keccak-256 digest of the domain type hash, the
  digests of the UTF-8 bytes of name and version, \<open>encode_u256\<close> of the chain id and
  \<open>encode_address\<close> of the contract. The type signature built from the fields present is
  the script's \<open>DOMAIN_TYPE\<close>.
\<close>

theorem domain_separator_is_spec_domain_separator:
  "domain_separator =
     Inr (keccak256
       (keccak256 (encode_utf8 DOMAIN_TYPE) @ keccak256 (encode_utf8 NAME) @
        keccak256 (encode_utf8 VERSION) @ be_bytes 32 CHAIN_ID @
        replicate 12 0 @
         [0x5d, 0xe1, 0xc2, 0x16, 0x82, 0xef, 0x8b, 0x39, 0xae, 0xb0, 0xba, 0x9f, 0xa6, 0x06,
          0x8c, 0x65, 0x0d, 0x3f, 0x74, 0x4e])) \<and>
   encode_u256 CHAIN_ID = Inr (be_bytes 32 CHAIN_ID) \<and>
   encode_address VERIFYING_CONTRACT =
     Inr (replicate 12 0 @
         [0x5d, 0xe1, 0xc2, 0x16, 0x82, 0xef, 0x8b, 0x39, 0xae, 0xb0, 0xba, 0x9f, 0xa6, 0x06,
          0x8c, 0x65, 0x0d, 0x3f, 0x74, 0x4e]) \<and>
   spec_typeSignature ''EIP712Domain''
     (map fst (domain_fields
        \<lparr>d_name = Some NAME, d_version = Some VERSION, d_chainId = Some CHAIN_ID,
         d_verifyingContract = Some VERIFYING_CONTRACT, d_salt = None\<rparr>)) = DOMAIN_TYPE \<and>
   map_sum EncodingFailure id domain_separator =
     spec_domainSeparator
       \<lparr>d_name = Some NAME, d_version = Some VERSION, d_chainId = Some CHAIN_ID,
        d_verifyingContract = Some VERIFYING_CONTRACT, d_salt = None\<rparr>"
proof -
  have c: "encode_u256 CHAIN_ID = Inr (be_bytes 32 CHAIN_ID)"
    by (simp add: encode_u256_def int_to_bytes_def CHAIN_ID_def)
  have a: "encode_address VERIFYING_CONTRACT =
     Inr (replicate 12 0 @
         [0x5d, 0xe1, 0xc2, 0x16, 0x82, 0xef, 0x8b, 0x39, 0xae, 0xb0, 0xba, 0x9f, 0xa6, 0x06,
          0x8c, 0x65, 0x0d, 0x3f, 0x74, 0x4e])"
    by (simp add: encode_address_def VERIFYING_CONTRACT_def hex_value_def py_isspace_def)
  have sig: "spec_typeSignature ''EIP712Domain''
     (map fst (domain_fields
        \<lparr>d_name = Some NAME, d_version = Some VERSION, d_chainId = Some CHAIN_ID,
         d_verifyingContract = Some VERIFYING_CONTRACT, d_salt = None\<rparr>)) = DOMAIN_TYPE"
    by (simp add: spec_typeSignature_def domain_fields_def DOMAIN_TYPE_def)
  have h: "domain_separator =
     Inr (keccak256
       (keccak256 (encode_utf8 DOMAIN_TYPE) @ keccak256 (encode_utf8 NAME) @
        keccak256 (encode_utf8 VERSION) @ be_bytes 32 CHAIN_ID @
        replicate 12 0 @
         [0x5d, 0xe1, 0xc2, 0x16, 0x82, 0xef, 0x8b, 0x39, 0xae, 0xb0, 0xba, 0x9f, 0xa6, 0x06,
          0x8c, 0x65, 0x0d, 0x3f, 0x74, 0x4e]))"
    by (simp add: domain_separator_def domain_data_def domain_type_hash_def name_hash_def
        version_hash_def chain_id_bytes_def address_bytes_def c a)
  have s: "spec_domainSeparator
       \<lparr>d_name = Some NAME, d_version = Some VERSION, d_chainId = Some CHAIN_ID,
        d_verifyingContract = Some VERIFYING_CONTRACT, d_salt = None\<rparr> =
     Inr (keccak256
       (keccak256 (encode_utf8 DOMAIN_TYPE) @ keccak256 (encode_utf8 NAME) @
        keccak256 (encode_utf8 VERSION) @ be_bytes 32 CHAIN_ID @
        replicate 12 0 @
         [0x5d, 0xe1, 0xc2, 0x16, 0x82, 0xef, 0x8b, 0x39, 0xae, 0xb0, 0xba, 0x9f, 0xa6, 0x06,
          0x8c, 0x65, 0x0d, 0x3f, 0x74, 0x4e]))"
    using sig
    by (simp add: spec_domainSeparator_def spec_structHash_def spec_typeHash_def
        domain_fields_def c a)
  show ?thesis
    unfolding h s sig c a
    by simp
qed

text \<open>
  C7. For every byte sequence \<open>b\<close>, \<open>keccak256 b\<close> has exactly 32 bytes, and it is a
  function of \<open>b\<close> alone: every call starts from a new hash object, so two calls on the
  same input return the same digest.
\<close>

theorem keccak256_length_deterministic:
  "length (keccak256 b) = 32 \<and> (\<forall>b'. b' = b \<longrightarrow> keccak256 b' = keccak256 b)"
  by (simp add: length_keccak256)

theorem keccak256_length_deterministic_witness:
  "length (keccak256 [0x61, 0x62, 0x63]) = 32 \<and>
   keccak256 ([0x61] @ [0x62, 0x63]) = keccak256 [0x61, 0x62, 0x63]"
  using keccak256_length_deterministic [of "[0x61, 0x62, 0x63]"] by simp

text \<open>
  C8. The three digests the script computes are the constants of the TypeScript
  implementation: the hexadecimal forms of the domain separator, the struct hash and the
  message hash are \<open>ts_domain_sep\<close>, \<open>ts_struct_hash\<close> and \<open>ts_message_hash\<close>, and the
  three comparisons of the script give \<^verbatim>\<open>True\<close>.
\<close>

theorem digests_match_typescript:
  "map_sum id hex domain_separator =
     Inr ''b54e71ed181dc14d1d4268384ffba108241611e40a16197e69b9fb4468c862df'' \<and>
   map_sum id hex struct_hash =
     Inr ''f126db3247e509f0c1215cdbbbfa462f367efb5c5bef8bff98534f6c2e82a0ee'' \<and>
   map_sum id hex message_hash =
     Inr ''af7fdd88b4ec5903cee293d25f8edde9e97ed9dc9aef5a5261cd1338e10d9a7d'' \<and>
   domain_separator_match = Inr True \<and> struct_hash_match = Inr True \<and>
   message_hash_match = Inr True"
  by (simp add: domain_separator_match_def struct_hash_match_def message_hash_match_def
      domain_separator_value struct_hash_value message_hash_value ts_domain_sep_def
      ts_struct_hash_def ts_message_hash_def hex_def hex_byte_def hex_digit_def)

text \<open>
  C9. Round trip: for \<open>0 \<le> v < 2^256\<close>, \<open>encode_u256 v\<close> succeeds, its result read as a
  big-endian unsigned integer is \<open>v\<close>, and it has exactly 32 bytes.
\<close>

theorem encode_u256_roundtrip:
  "0 \<le> v \<Longrightarrow> v < 2 ^ 256 \<Longrightarrow>
     map_sum id from_bytes_big (encode_u256 v) = Inr v \<and>
     map_sum id length (encode_u256 v) = Inr 32"
proof -
  assume v: "0 \<le> v" "v < 2 ^ 256"
  have p: "(256 :: int) ^ 32 = 2 ^ 256"
    by simp
  from v have "encode_u256 v = Inr (be_bytes 32 v)"
    by (simp add: encode_u256_def int_to_bytes_def p del: be_bytes.simps)
  moreover from v have "from_bytes_big (be_bytes 32 v) = v"
    by (simp add: from_bytes_big_be_bytes p)
  ultimately show ?thesis
    by (simp add: length_be_bytes del: be_bytes.simps)
qed

theorem encode_u256_roundtrip_witness:
  "map_sum id from_bytes_big (encode_u256 1770084386) = Inr 1770084386 \<and>
   map_sum id length (encode_u256 1770084386) = Inr 32"
  using encode_u256_roundtrip [of 1770084386] by simp

text \<open>
  C10. \<open>encode_address\<close> validates no length: when the characters after the first two
  are \<open>2n\<close> hexadecimal digits, it returns \<open>12 + n\<close> bytes and raises nothing; so for
  \<open>n \<noteq> 20\<close> the result is not 32 bytes long, and still no error is raised.
\<close>

theorem encode_address_no_validation:
  assumes "\<forall>c \<in> set (drop 2 address). hex_value c \<noteq> None"
    and "length (drop 2 address) = 2 * n"
  shows "map_sum id length (encode_address address) = Inr (12 + n) \<and>
         (n \<noteq> 20 \<longrightarrow> map_sum id length (encode_address address) \<noteq> Inr 32)"
proof -
  from assms obtain bs where "fromhex (drop 2 address) = Inr bs" and "length bs = n"
    using fromhex_digits by blast
  then show ?thesis
    by (simp add: encode_address_def)
qed

theorem encode_address_no_validation_witness:
  "map_sum id length (encode_address ''0xabcd'') = Inr 14 \<and>
   map_sum id length (encode_address ''0xabcd'') \<noteq> Inr 32"
proof -
  have h: "\<forall>c \<in> set (drop 2 ''0xabcd''). hex_value c \<noteq> None"
    by (simp add: hex_value_def)
  have l: "length (drop 2 ''0xabcd'') = 2 * 2"
    by simp
  from encode_address_no_validation [OF h l] show ?thesis
    by simp
qed

end
